theory Spec2Isabelle
  imports Complex_Main "HOL-Library.Sublist"
begin

section \<open>Values exchanged with the GitHub API\<close>

text \<open>
  The notebook \<open>main.ipynb\<close> handles untyped Python values decoded from JSON. They are
  modelled by \<open>json\<close>; a Python \<open>dict\<close> is an association list whose keys are pairwise
  distinct, looked up with \<open>map_of\<close>. A string is the list of its characters. JSON
  numbers with a fractional part are left out: no function of the notebook computes with
  the fields of a record.
\<close>

datatype json =
    JNull
  | JBool bool
  | JInt int
  | JStr string
  | JArr "json list"
  | JObj "(string \<times> json) list"

type_synonym dict = "(string \<times> json) list"

text \<open>The exceptions that escape the \<open>requests\<close> layer in the notebook.\<close>

datatype error = ValueError | AttributeError | TypeError

text \<open>\<open>d.get(key, default)\<close>: the stored value when the key is present, also when it is
  \<open>None\<close>; the default only when the key is absent.\<close>

definition py_get :: "dict \<Rightarrow> string \<Rightarrow> json \<Rightarrow> json" where
  "py_get d key dflt = (case map_of d key of None \<Rightarrow> dflt | Some v \<Rightarrow> v)"

text \<open>Python truth value, as tested by \<open>if items:\<close>.\<close>

fun truthy :: "json \<Rightarrow> bool" where
  "truthy JNull = False"
| "truthy (JBool b) = b"
| "truthy (JInt n) = (n \<noteq> 0)"
| "truthy (JStr s) = (s \<noteq> [])"
| "truthy (JArr xs) = (xs \<noteq> [])"
| "truthy (JObj d) = (d \<noteq> [])"

text \<open>The elements Python iterates over: the members of a list, the characters of a
  string, the keys of a dict; anything else raises \<open>TypeError\<close>.\<close>

fun py_iter :: "json \<Rightarrow> error + json list" where
  "py_iter (JArr xs) = Inr xs"
| "py_iter (JStr s) = Inr (map (\<lambda>c. JStr [c]) s)"
| "py_iter (JObj d) = Inr (map (\<lambda>kv. JStr (fst kv)) d)"
| "py_iter JNull = Inl TypeError"
| "py_iter (JBool b) = Inl TypeError"
| "py_iter (JInt n) = Inl TypeError"

text \<open>\<open>xs.extend(v)\<close>.\<close>

definition list_extend :: "json list \<Rightarrow> json \<Rightarrow> error + json list" where
  "list_extend xs v = (case py_iter v of Inl e \<Rightarrow> Inl e | Inr ys \<Rightarrow> Inr (xs @ ys))"

subsection \<open>Requests and responses\<close>

text \<open>
  A response header as \<open>int(response.headers.get(name, 0))\<close> sees it: absent, a text that
  \<open>int\<close> accepts, or a text on which \<open>int\<close> raises \<open>ValueError\<close>.
\<close>

datatype header = Missing | IntText int | NonIntText

definition header_int :: "header \<Rightarrow> error + int" where
  "header_int h = (case h of Missing \<Rightarrow> Inr 0 | IntText n \<Rightarrow> Inr n | NonIntText \<Rightarrow> Inl ValueError)"

text \<open>
  A response carries its status code, the headers \<open>X-RateLimit-Remaining\<close> and
  \<open>X-RateLimit-Reset\<close>, and its body as \<open>response.json()\<close> decodes it (\<open>None\<close> when the
  body is not JSON). \<open>requests.get\<close> either returns a response or raises a
  \<open>RequestException\<close> for a transport failure.
\<close>

datatype response =
  Response (status_code: nat) (ratelimit_remaining: header) (ratelimit_reset: header)
    (body: "json option")

datatype reply = Transport_Failure | Received response

datatype request =
  Request (url: string) (headers: "(string \<times> string) list") (params: dict)

text \<open>\<open>response.raise_for_status()\<close> raises \<open>HTTPError\<close> for the codes 400 to 599.\<close>

definition raise_for_status :: "response \<Rightarrow> bool" where
  "raise_for_status r = (400 \<le> status_code r \<and> status_code r < 600)"

subsection \<open>The outside world\<close>

text \<open>
  The network and the clock are a state machine over a state \<open>'w\<close> that the model threads
  through every call: \<open>requests_get\<close> answers a request, \<open>time_time\<close> reads the clock and
  \<open>time_sleep\<close> blocks for a duration. Time is a real number, the rounding of
  floating-point arithmetic is not modelled. Every effect on the world is also appended to
  a trace: a request with the reply it got, a reading of the clock, a sleep, a CSV file
  written with its rows.
\<close>

record 'w github =
  requests_get :: "request \<Rightarrow> 'w \<Rightarrow> reply \<times> 'w"
  time_time :: "'w \<Rightarrow> real \<times> 'w"
  time_sleep :: "real \<Rightarrow> 'w \<Rightarrow> 'w"

datatype event =
    Get request reply
  | Read_Clock real
  | Sleep real
  | Write_Csv string "dict list"

section \<open>\<open>scrape_github_repositories\<close>\<close>

text \<open>
  The block under \<open># Handle rate limiting\<close>:
  \<^verbatim>\<open>
  remaining = int(response.headers.get("X-RateLimit-Remaining", 0))
  if remaining == 0:
      reset_time = int(response.headers.get("X-RateLimit-Reset", 0))
      sleep_duration = reset_time - time.time() + 1
      time.sleep(max(sleep_duration, 0))
  \<close>
\<close>

definition handle_rate_limiting ::
  "'w github \<Rightarrow> response \<Rightarrow> 'w \<times> event list \<Rightarrow> error + ('w \<times> event list)" where
  "handle_rate_limiting env response s =
     (case s of (w, tr) \<Rightarrow>
        (case header_int (ratelimit_remaining response) of
           Inl e \<Rightarrow> Inl e
         | Inr remaining \<Rightarrow>
             if remaining = 0 then
               (case header_int (ratelimit_reset response) of
                  Inl e \<Rightarrow> Inl e
                | Inr reset_time \<Rightarrow>
                    (case time_time env w of (now, w1) \<Rightarrow>
                       let sleep_duration = real_of_int reset_time - now + 1
                       in Inr (time_sleep env (max sleep_duration 0) w1,
                               tr @ [Read_Clock now, Sleep (max sleep_duration 0)])))
             else Inr (w, tr)))"

text \<open>
  The request of one page: \<open>requests.get(url, headers=headers, params=payload)\<close> with
  \<open>headers = {'Authorization': f'token {access_token}'}\<close> and
  \<open>payload = {'q': query, 'per_page': 100, 'page': page}\<close>.
\<close>

definition search_request :: "string \<Rightarrow> string \<Rightarrow> int \<Rightarrow> request" where
  "search_request access_token query page =
     Request ''https://api.github.com/search/repositories''
       [(''Authorization'', ''token '' @ access_token)]
       [(''q'', JStr query), (''per_page'', JInt 100), (''page'', JInt page)]"

text \<open>
  The state of the function while it runs: the world, \<open>repositories_list\<close> and the trace.
  One turn of the inner loop either falls through to the next page, leaves the loop by
  \<open>break\<close>, or raises an exception that no handler of the function catches.
\<close>

type_synonym 'w state = "'w \<times> json list \<times> event list"

datatype 'a outcome = Continue 'a | Break 'a | Raise error 'a

text \<open>
  The body of \<open>for page in range(1, pages + 1)\<close>. The \<open>except\<close> clause catches
  \<open>requests.exceptions.RequestException\<close>: a transport failure of \<open>requests.get\<close>, the
  \<open>HTTPError\<close> of \<open>raise_for_status\<close>, and the \<open>JSONDecodeError\<close> of \<open>response.json()\<close>
  (a \<open>RequestException\<close> in requests 2.27 and later). A body that is JSON but no object
  has no method \<open>get\<close> (\<open>AttributeError\<close>); truthy items that cannot be iterated make
  \<open>extend\<close> raise \<open>TypeError\<close>; neither is caught.
\<close>

definition scrape_page ::
  "'w github \<Rightarrow> string \<Rightarrow> string \<Rightarrow> int \<Rightarrow> 'w state \<Rightarrow> 'w state outcome" where
  "scrape_page env access_token query page s =
     (case s of (w, repositories_list, tr) \<Rightarrow>
       (case requests_get env (search_request access_token query page) w of (rep, w1) \<Rightarrow>
          let tr1 = tr @ [Get (search_request access_token query page) rep] in
          (case rep of
             Transport_Failure \<Rightarrow> Break (w1, repositories_list, tr1)
           | Received response \<Rightarrow>
               if raise_for_status response then Break (w1, repositories_list, tr1)
               else
                 (case body response of
                    None \<Rightarrow> Break (w1, repositories_list, tr1)
                  | Some (JObj d) \<Rightarrow>
                      let items = py_get d ''items'' (JArr []) in
                      (case (if truthy items then list_extend repositories_list items
                             else Inr repositories_list) of
                         Inl e \<Rightarrow> Raise e (w1, repositories_list, tr1)
                       | Inr repositories_list' \<Rightarrow>
                           (case handle_rate_limiting env response (w1, tr1) of
                              Inl e \<Rightarrow> Raise e (w1, repositories_list', tr1)
                            | Inr (w2, tr2) \<Rightarrow> Continue (w2, repositories_list', tr2)))
                  | Some _ \<Rightarrow> Raise AttributeError (w1, repositories_list, tr1)))))"

text \<open>The inner loop over the page numbers still to do.\<close>

fun scrape_pages ::
  "'w github \<Rightarrow> string \<Rightarrow> string \<Rightarrow> int list \<Rightarrow> 'w state \<Rightarrow> 'w state outcome" where
  "scrape_pages env access_token query [] s = Continue s"
| "scrape_pages env access_token query (page # rest) s =
     (case scrape_page env access_token query page s of
        Continue s' \<Rightarrow> scrape_pages env access_token query rest s'
      | Break s' \<Rightarrow> Break s'
      | Raise e s' \<Rightarrow> Raise e s')"

text \<open>The outer loop \<open>for query in search_queries\<close>; \<open>range(1, pages + 1)\<close> is
  \<open>[1..pages]\<close>, empty when \<open>pages < 1\<close>. A \<open>break\<close> ends the pages of the current query
  only.\<close>

fun scrape_queries ::
  "'w github \<Rightarrow> string \<Rightarrow> int \<Rightarrow> string list \<Rightarrow> 'w state \<Rightarrow> (error \<times> 'w state) + 'w state" where
  "scrape_queries env access_token pages [] s = Inr s"
| "scrape_queries env access_token pages (query # rest) s =
     (case scrape_pages env access_token query [1..pages] s of
        Continue s' \<Rightarrow> scrape_queries env access_token pages rest s'
      | Break s' \<Rightarrow> scrape_queries env access_token pages rest s'
      | Raise e s' \<Rightarrow> Inl (e, s'))"

text \<open>The function returns \<open>repositories_list\<close>; the model returns it with the world and
  the trace, or the exception raised with the state it was raised in.\<close>

definition scrape_github_repositories ::
  "'w github \<Rightarrow> string list \<Rightarrow> string \<Rightarrow> int \<Rightarrow> 'w \<Rightarrow> (error \<times> 'w state) + 'w state" where
  "scrape_github_repositories env search_queries access_token pages w =
     scrape_queries env access_token pages search_queries (w, [], [])"

section \<open>\<open>load_access_tokens\<close>\<close>

text \<open>
  \<open>getenv\<close> is \<open>os.getenv\<close> once \<open>dotenv.load_dotenv()\<close> has run. \<open>not token\<close> holds for a
  variable that is absent (\<open>None\<close>) and for the empty string.
\<close>

definition load_access_tokens :: "(string \<Rightarrow> string option) \<Rightarrow> error + string \<times> string" where
  "load_access_tokens getenv =
     (case (getenv ''token_1'', getenv ''token_2'') of
        (Some access_token_1, Some access_token_2) \<Rightarrow>
          if access_token_1 = [] \<or> access_token_2 = [] then Inl ValueError
          else Inr (access_token_1, access_token_2)
      | _ \<Rightarrow> Inl ValueError)"

section \<open>\<open>save_repositories_to_csv\<close>\<close>

fun join_strings :: "string \<Rightarrow> string list \<Rightarrow> string" where
  "join_strings sep [] = []"
| "join_strings sep [s] = s"
| "join_strings sep (s # t # rest) = s @ sep @ join_strings sep (t # rest)"

fun str_of :: "json \<Rightarrow> string option" where
  "str_of (JStr s) = Some s"
| "str_of v = None"

text \<open>\<open>sep.join(v)\<close>: \<open>TypeError\<close> unless \<open>v\<close> can be iterated and yields strings only.\<close>

definition py_join :: "string \<Rightarrow> json \<Rightarrow> error + string" where
  "py_join sep v =
     (case py_iter v of
        Inl e \<Rightarrow> Inl e
      | Inr xs \<Rightarrow>
          if list_all (\<lambda>x. str_of x \<noteq> None) xs
          then Inr (join_strings sep (map (\<lambda>x. the (str_of x)) xs))
          else Inl TypeError)"

text \<open>
  One element of the list comprehension \<open>repository_records\<close>. The entries are evaluated
  in the order written: \<open>repo.get\<close> needs a dict, \<open>repo.get('owner', {}).get\<close> needs the
  owner to be a dict, and the topics are joined with \<open>', '\<close>.
\<close>

definition repository_record :: "json \<Rightarrow> error + dict" where
  "repository_record repo =
     (case repo of
        JObj d \<Rightarrow>
          (case py_get d ''owner'' (JObj []) of
             JObj owner \<Rightarrow>
               (case py_join '', '' (py_get d ''topics'' (JArr [])) of
                  Inl e \<Rightarrow> Inl e
                | Inr topics \<Rightarrow>
                    Inr [(''Repository Name'', py_get d ''name'' (JStr ''N/A'')),
                         (''Owner Username'', py_get owner ''login'' (JStr ''N/A'')),
                         (''Owner Profile URL'', py_get owner ''html_url'' (JStr ''N/A'')),
                         (''Owner Type'', py_get owner ''type'' (JStr ''N/A'')),
                         (''Description'', py_get d ''description'' (JStr ''N/A'')),
                         (''Created Date'', py_get d ''created_at'' (JStr ''N/A'')),
                         (''Updated Date'', py_get d ''updated_at'' (JStr ''N/A'')),
                         (''Last Pushed Date'', py_get d ''pushed_at'' (JStr ''N/A'')),
                         (''Repository Size (KB)'', py_get d ''size'' (JStr ''N/A'')),
                         (''Stars Count'', py_get d ''stargazers_count'' (JInt 0)),
                         (''Watchers Count'', py_get d ''watchers_count'' (JInt 0)),
                         (''Primary Language'', py_get d ''language'' (JStr ''N/A'')),
                         (''Forks Count'', py_get d ''forks_count'' (JInt 0)),
                         (''Open Issues Count'', py_get d ''open_issues_count'' (JInt 0)),
                         (''Topics'', JStr topics),
                         (''Default Branch'', py_get d ''default_branch'' (JStr ''N/A''))])
           | _ \<Rightarrow> Inl AttributeError)
      | _ \<Rightarrow> Inl AttributeError)"

text \<open>The comprehension over all repositories stops at the first exception.\<close>

fun repository_records :: "json list \<Rightarrow> error + dict list" where
  "repository_records [] = Inr []"
| "repository_records (repo # rest) =
     (case repository_record repo of
        Inl e \<Rightarrow> Inl e
      | Inr row \<Rightarrow>
          (case repository_records rest of
             Inl e \<Rightarrow> Inl e
           | Inr rows \<Rightarrow> Inr (row # rows)))"

text \<open>
  The function returns nothing; its effect is the file it writes, here the events it adds
  to the trace. An empty list writes nothing, and so does any exception, which the
  function catches and logs. Errors of the file system are not modelled.
\<close>

definition save_repositories_to_csv :: "json list \<Rightarrow> string \<Rightarrow> event list" where
  "save_repositories_to_csv repositories output_file =
     (if repositories = [] then []
      else (case repository_records repositories of
              Inl e \<Rightarrow> []
            | Inr rows \<Rightarrow> [Write_Csv output_file rows]))"

section \<open>\<open>analyze_users_and_organizations\<close>\<close>

text \<open>
  What \<open>pd.read_csv\<close> hands to the function: the file is missing, any other exception
  (among them the \<open>KeyError\<close> of a frame without one of the two columns), or a frame, of
  which the function reads the columns \<open>Owner Type\<close> and \<open>Owner Username\<close> only. A cell is
  \<open>None\<close> where pandas has \<open>NaN\<close>.
\<close>

type_synonym owners_frame = "(string option \<times> string option) list"

datatype csv_read = File_Not_Found | Read_Error | Frame owners_frame

text \<open>\<open>Series.dropna\<close> and \<open>Series.unique\<close>, which keeps the first occurrence of each value
  in the order of appearance.\<close>

fun dropna :: "'a option list \<Rightarrow> 'a list" where
  "dropna [] = []"
| "dropna (None # xs) = dropna xs"
| "dropna (Some x # xs) = x # dropna xs"

fun unique :: "'a list \<Rightarrow> 'a list" where
  "unique [] = []"
| "unique (x # xs) = x # unique (removeAll x xs)"

definition owners_of_type :: "string \<Rightarrow> owners_frame \<Rightarrow> string list" where
  "owners_of_type t df = unique (dropna (map snd (filter (\<lambda>row. fst row = Some t) df)))"

definition analyze_users_and_organizations :: "csv_read \<Rightarrow> string list \<times> string list" where
  "analyze_users_and_organizations csv_file =
     (case csv_file of
        File_Not_Found \<Rightarrow> ([], [])
      | Read_Error \<Rightarrow> ([], [])
      | Frame df \<Rightarrow> (owners_of_type ''User'' df, owners_of_type ''Organization'' df))"

section \<open>\<open>fetch_user_details\<close> and \<open>fetch_organization_data\<close>\<close>

text \<open>\<open>requests.get(url, headers=headers)\<close> with
  \<open>url = f"https://api.github.com/users/{username}"\<close>.\<close>

definition user_request :: "string \<Rightarrow> string \<Rightarrow> request" where
  "user_request username token =
     Request (''https://api.github.com/users/'' @ username)
       [(''Authorization'', ''token '' @ token)] []"

text \<open>
  Both functions run inside a worker thread. The network as one call sees it is a function
  \<open>get\<close> from its request to the reply. The call returns the dict of details, or \<open>None\<close>
  after any exception: the three \<open>except\<close> clauses end with \<open>except Exception\<close>, so a
  transport failure, an HTTP error status, a body that is not JSON and a JSON body without
  a method \<open>get\<close> all give \<open>None\<close>. The model also returns the request made, as a trace.
\<close>

definition fetch_user_details ::
  "(request \<Rightarrow> reply) \<Rightarrow> string \<Rightarrow> string \<Rightarrow> event list \<times> dict option" where
  "fetch_user_details get username token =
     (let rep = get (user_request username token) in
      ([Get (user_request username token) rep],
       (case rep of
          Transport_Failure \<Rightarrow> None
        | Received response \<Rightarrow>
            if raise_for_status response then None
            else
              (case body response of
                 Some (JObj user_data) \<Rightarrow>
                   Some [(''Username'', py_get user_data ''login'' (JStr ''N/A'')),
                         (''User ID'', py_get user_data ''id'' (JStr ''N/A'')),
                         (''Profile URL'', py_get user_data ''html_url'' (JStr ''N/A'')),
                         (''Name'', py_get user_data ''name'' (JStr ''N/A'')),
                         (''Company'', py_get user_data ''company'' (JStr ''N/A'')),
                         (''Location'', py_get user_data ''location'' (JStr ''N/A'')),
                         (''Bio'', py_get user_data ''bio'' (JStr ''N/A'')),
                         (''Blog'', py_get user_data ''blog'' (JStr ''N/A'')),
                         (''Twitter Username'', py_get user_data ''twitter_username'' (JStr ''N/A'')),
                         (''Email'', py_get user_data ''email'' (JStr ''N/A'')),
                         (''Public Repos'', py_get user_data ''public_repos'' (JInt 0)),
                         (''Public Gists'', py_get user_data ''public_gists'' (JInt 0)),
                         (''Followers'', py_get user_data ''followers'' (JInt 0)),
                         (''Following'', py_get user_data ''following'' (JInt 0)),
                         (''Account Created'', py_get user_data ''created_at'' (JStr ''N/A'')),
                         (''Last Updated'', py_get user_data ''updated_at'' (JStr ''N/A''))]
               | _ \<Rightarrow> None))))"

definition fetch_organization_data ::
  "(request \<Rightarrow> reply) \<Rightarrow> string \<Rightarrow> string \<Rightarrow> event list \<times> dict option" where
  "fetch_organization_data get org_username token =
     (let rep = get (user_request org_username token) in
      ([Get (user_request org_username token) rep],
       (case rep of
          Transport_Failure \<Rightarrow> None
        | Received response \<Rightarrow>
            if raise_for_status response then None
            else
              (case body response of
                 Some (JObj org_data) \<Rightarrow>
                   Some [(''Organization Username'', py_get org_data ''login'' (JStr ''N/A'')),
                         (''Organization ID'', py_get org_data ''id'' (JStr ''N/A'')),
                         (''Profile URL'', py_get org_data ''html_url'' (JStr ''N/A'')),
                         (''Full Name'', py_get org_data ''name'' (JStr ''N/A'')),
                         (''Location'', py_get org_data ''location'' (JStr ''N/A'')),
                         (''Bio'', py_get org_data ''bio'' (JStr ''N/A'')),
                         (''Blog URL'', py_get org_data ''blog'' (JStr ''N/A'')),
                         (''Twitter Username'', py_get org_data ''twitter_username'' (JStr ''N/A'')),
                         (''Email'', py_get org_data ''email'' (JStr ''N/A'')),
                         (''Public Repositories'', py_get org_data ''public_repos'' (JInt 0)),
                         (''Public Gists'', py_get org_data ''public_gists'' (JInt 0)),
                         (''Followers Count'', py_get org_data ''followers'' (JInt 0)),
                         (''Following Count'', py_get org_data ''following'' (JInt 0)),
                         (''Account Created At'', py_get org_data ''created_at'' (JStr ''N/A'')),
                         (''Last Updated At'', py_get org_data ''updated_at'' (JStr ''N/A''))]
               | _ \<Rightarrow> None))))"

section \<open>\<open>save_users_data_to_csv\<close> and \<open>save_organizations_data_to_csv\<close>\<close>

text \<open>\<open>df.fillna('N/A')\<close> replaces the missing values of the frame.\<close>

definition fillna :: "dict \<Rightarrow> dict" where
  "fillna row = map (\<lambda>kv. (fst kv, if snd kv = JNull then JStr ''N/A'' else snd kv)) row"

definition save_users_data_to_csv :: "dict list \<Rightarrow> string \<Rightarrow> event list" where
  "save_users_data_to_csv users_data file_name =
     (if users_data = [] then [] else [Write_Csv file_name (map fillna users_data)])"

definition save_organizations_data_to_csv :: "dict list \<Rightarrow> string \<Rightarrow> event list" where
  "save_organizations_data_to_csv organizations_data file_name =
     (if organizations_data = [] then [] else [Write_Csv file_name (map fillna organizations_data)])"

section \<open>The thread pool of \<open>main\<close>\<close>

text \<open>
  \<open>executor.submit\<close> queues one task per element of the list, in the order of the list,
  and returns its future. A task is the call it will make, still waiting for the network.
  Under the pool the tasks complete in some order \<open>sched\<close>, a list of task numbers;
  \<open>answer i\<close> is the network as the \<open>i\<close>-th submitted task sees it. Running the pool fills
  the futures in the order of \<open>sched\<close> and records the requests in that order; a number
  that names no task is skipped.
\<close>

type_synonym 'a task = "(request \<Rightarrow> reply) \<Rightarrow> event list \<times> 'a"

definition pool_step ::
  "'a task list \<Rightarrow> (nat \<Rightarrow> request \<Rightarrow> reply) \<Rightarrow> nat \<Rightarrow>
    (nat \<rightharpoonup> 'a) \<times> event list \<Rightarrow> (nat \<rightharpoonup> 'a) \<times> event list" where
  "pool_step future_tasks answer i s =
     (case s of (futures, tr) \<Rightarrow>
        if i < length future_tasks
        then (case (future_tasks ! i) (answer i) of
                (ev, result) \<Rightarrow> (futures(i \<mapsto> result), tr @ ev))
        else (futures, tr))"

definition run_pool ::
  "'a task list \<Rightarrow> (nat \<Rightarrow> request \<Rightarrow> reply) \<Rightarrow> nat list \<Rightarrow> (nat \<rightharpoonup> 'a) \<times> event list" where
  "run_pool future_tasks answer sched =
     fold (pool_step future_tasks answer) sched (Map.empty, [])"

text \<open>
  \<open>[future.result() for future in future_tasks if future.result() is not None]\<close> reads
  the futures in the order of submission. \<open>future.result()\<close> blocks until the task has
  completed: on a future that is never filled the comprehension does not return, which is
  the value \<open>None\<close> of the model.
\<close>

fun collect_results :: "(nat \<rightharpoonup> 'a option) \<Rightarrow> nat list \<Rightarrow> 'a list option" where
  "collect_results futures [] = Some []"
| "collect_results futures (i # rest) =
     (case futures i of
        None \<Rightarrow> None
      | Some result \<Rightarrow>
          (case collect_results futures rest of
             None \<Rightarrow> None
           | Some results \<Rightarrow>
               Some (case result of None \<Rightarrow> results | Some v \<Rightarrow> v # results)))"

text \<open>The two stages of \<open>main\<close>. Users at the positions below 4000 are fetched with the
  first token, the others with the second; organizations with the second token.\<close>

definition user_tasks :: "string list \<Rightarrow> string \<Rightarrow> string \<Rightarrow> dict option task list" where
  "user_tasks users access_token_1 access_token_2 =
     map (\<lambda>(i, username) get.
            fetch_user_details get username (if i < 4000 then access_token_1 else access_token_2))
       (enumerate 0 users)"

definition organization_tasks :: "string list \<Rightarrow> string \<Rightarrow> dict option task list" where
  "organization_tasks organizations access_token_2 =
     map (\<lambda>org_username get. fetch_organization_data get org_username access_token_2)
       organizations"

definition gather :: "'a option task list \<Rightarrow> (nat \<Rightarrow> request \<Rightarrow> reply) \<Rightarrow> nat list \<Rightarrow>
    event list \<times> 'a list option" where
  "gather future_tasks answer sched =
     (case run_pool future_tasks answer sched of
        (futures, tr) \<Rightarrow> (tr, collect_results futures [0..<length future_tasks]))"

definition fetch_all_user_details ::
  "(nat \<Rightarrow> request \<Rightarrow> reply) \<Rightarrow> nat list \<Rightarrow> string list \<Rightarrow> string \<Rightarrow> string \<Rightarrow>
    event list \<times> dict list option" where
  "fetch_all_user_details answer sched users access_token_1 access_token_2 =
     gather (user_tasks users access_token_1 access_token_2) answer sched"

definition fetch_all_organizations_data ::
  "(nat \<Rightarrow> request \<Rightarrow> reply) \<Rightarrow> nat list \<Rightarrow> string list \<Rightarrow> string \<Rightarrow>
    event list \<times> dict list option" where
  "fetch_all_organizations_data answer sched organizations access_token_2 =
     gather (organization_tasks organizations access_token_2) answer sched"

text \<open>
  The completion orders a pool of \<open>max_workers\<close> threads can produce for \<open>n\<close> tasks: every
  task completes once, and the task that completes at step \<open>t\<close> is among the first
  \<open>t + max_workers\<close> submitted, since the workers take the tasks in the order of submission.
\<close>

definition pool_schedule :: "nat \<Rightarrow> nat \<Rightarrow> nat list \<Rightarrow> bool" where
  "pool_schedule max_workers n sched \<longleftrightarrow>
       length sched = n
     \<and> list_all (\<lambda>i. i \<in> set sched) [0..<n]
     \<and> list_all (\<lambda>t. sched ! t < t + max_workers) [0..<n]"

section \<open>\<open>main\<close>\<close>

text \<open>The list \<open>search_queries\<close> of \<open>main\<close>.\<close>

definition main_search_queries :: "string list" where
  "main_search_queries =
     [''front-end'', ''back-end'', ''full-stack'', ''web-development'',
      ''mobile-development'', ''data-science'', ''machine-learning'',
      ''artificial-intelligence'', ''cloud-computing'', ''cybersecurity'']"

text \<open>
  \<open>main\<close> returns nothing; the model returns the trace of what it did, or \<open>None\<close> when it
  does not return. Each \<open>try\<close> block ends the function on an exception. \<open>read_csv\<close> is
  \<open>pd.read_csv('repositories_data.csv')\<close> as a function of what this run wrote to that
  file, which is left as it was when the run wrote nothing. The two stages of detail
  fetches each have their own view of the network and their own completion order.
\<close>

definition main ::
  "(string \<Rightarrow> string option) \<Rightarrow> 'w github \<Rightarrow> 'w \<Rightarrow> (event list \<Rightarrow> csv_read) \<Rightarrow>
   (nat \<Rightarrow> request \<Rightarrow> reply) \<Rightarrow> nat list \<Rightarrow> (nat \<Rightarrow> request \<Rightarrow> reply) \<Rightarrow> nat list \<Rightarrow>
   event list option" where
  "main getenv env w read_csv answer_users sched_users answer_orgs sched_orgs =
     (case load_access_tokens getenv of
        Inl e \<Rightarrow> Some []
      | Inr (access_token_1, access_token_2) \<Rightarrow>
          (case scrape_github_repositories env main_search_queries access_token_1 10 w of
             Inl (e, (w1, repositories_list, tr)) \<Rightarrow> Some tr
           | Inr (w1, repositories_data, tr) \<Rightarrow>
               let saved = save_repositories_to_csv repositories_data ''repositories_data.csv'' in
               (case analyze_users_and_organizations (read_csv saved) of
                  (users, organizations) \<Rightarrow>
                    (case fetch_all_user_details answer_users sched_users users
                            access_token_1 access_token_2 of
                       (tr_users, None) \<Rightarrow> None
                     | (tr_users, Some all_user_details) \<Rightarrow>
                         let saved_users = save_users_data_to_csv all_user_details ''users_data.csv'' in
                         (case fetch_all_organizations_data answer_orgs sched_orgs organizations
                                 access_token_2 of
                            (tr_orgs, None) \<Rightarrow> None
                          | (tr_orgs, Some all_organizations_data) \<Rightarrow>
                              Some (tr @ saved @ tr_users @ saved_users @ tr_orgs
                                    @ save_organizations_data_to_csv all_organizations_data
                                        ''organizations_data.csv''))))))"

section \<open>Reading a trace\<close>


text \<open>The replies that take \<open>scrape_github_repositories\<close> to its \<open>except\<close> clause.\<close>

definition request_exception :: "reply \<Rightarrow> bool" where
  "request_exception rep =
     (case rep of
        Transport_Failure \<Rightarrow> True
      | Received response \<Rightarrow> raise_for_status response \<or> body response = None)"


text \<open>
  The wait a reply calls for: the reset time to wait for when the reply is no failure and
  its remaining-quota header reads 0 or is absent, nothing otherwise.
\<close>

definition wait_due :: "reply \<Rightarrow> int option" where
  "wait_due rep =
     (case rep of
        Transport_Failure \<Rightarrow> None
      | Received response \<Rightarrow>
          if raise_for_status response \<or> body response = None then None
          else if header_int (ratelimit_remaining response) = Inr 0 then
            (case header_int (ratelimit_reset response) of
               Inl e \<Rightarrow> None
             | Inr reset_time \<Rightarrow> Some reset_time)
          else None)"

definition wait_served :: "int \<Rightarrow> event list \<Rightarrow> bool" where
  "wait_served reset_time tr =
     (case tr of
        Read_Clock now # Sleep d # tr' \<Rightarrow> d = max (real_of_int reset_time - now + 1) 0
      | _ \<Rightarrow> False)"

text \<open>
  A trace respects the quota when every request whose reply calls for a wait is followed
  at once by a reading of the clock and a sleep of \<open>max (reset_time - now + 1) 0\<close>, and
  the clock is read and the program sleeps nowhere else.
\<close>

function quota_respected :: "event list \<Rightarrow> bool" where
  "quota_respected [] = True"
| "quota_respected (Get req rep # tr) =
     (case wait_due rep of
        None \<Rightarrow> quota_respected tr
      | Some reset_time \<Rightarrow> wait_served reset_time tr \<and> quota_respected (drop 2 tr))"
| "quota_respected (Read_Clock now # tr) = False"
| "quota_respected (Sleep d # tr) = False"
| "quota_respected (Write_Csv file rows # tr) = quota_respected tr"
  by pat_completeness auto
termination
  by (relation "measure length") auto

text \<open>The state an outcome or a result carries.\<close>

fun outcome_state :: "'a outcome \<Rightarrow> 'a" where
  "outcome_state (Continue s) = s"
| "outcome_state (Break s) = s"
| "outcome_state (Raise e s) = s"

fun final_state :: "(error \<times> 'a) + 'a \<Rightarrow> 'a" where
  "final_state (Inl (e, s)) = s"
| "final_state (Inr s) = s"



section \<open>Concrete worlds for the examples\<close>

text \<open>A world whose clock always reads \<open>t\<close>, whose sleep returns at once and whose
  server answers the \<open>n\<close>-th request by \<open>script n\<close>; the state counts the requests.\<close>

definition scripted :: "real \<Rightarrow> (nat \<Rightarrow> request \<Rightarrow> reply) \<Rightarrow> nat github" where
  "scripted t script =
     \<lparr> requests_get = (\<lambda>req n. (script n req, Suc n)),
       time_time = (\<lambda>n. (t, n)),
       time_sleep = (\<lambda>d n. n) \<rparr>"

definition no_network :: "nat \<Rightarrow> request \<Rightarrow> reply" where
  "no_network n req = Transport_Failure"

definition repo :: json where
  "repo = JObj [(''name'', JStr ''r'')]"

text \<open>A page of search results with quota left, a page that exhausts the quota, and a
  refusal with status 403 whose headers report an exhausted quota.\<close>

definition page_of :: "json list \<Rightarrow> reply" where
  "page_of items =
     Received (Response 200 (IntText 5) (IntText 0) (Some (JObj [(''items'', JArr items)])))"

definition exhausted_page :: reply where
  "exhausted_page =
     Received (Response 200 (IntText 0) (IntText 130) (Some (JObj [(''items'', JArr [repo])])))"

definition forbidden :: reply where
  "forbidden = Received (Response 403 (IntText 0) (IntText 200) None)"

definition first_forbidden :: "nat \<Rightarrow> request \<Rightarrow> reply" where
  "first_forbidden n req = (if n = 0 then forbidden else page_of [repo])"

definition second_forbidden :: "nat \<Rightarrow> request \<Rightarrow> reply" where
  "second_forbidden n req = (if n = 1 then forbidden else page_of [repo])"

definition first_exhausted :: "nat \<Rightarrow> request \<Rightarrow> reply" where
  "first_exhausted n req = (if n = 0 then exhausted_page else page_of [repo])"

definition first_empty :: "nat \<Rightarrow> request \<Rightarrow> reply" where
  "first_empty n req = (if n = 0 then page_of [] else page_of [repo])"

definition no_file :: "event list \<Rightarrow> csv_read" where
  "no_file saved = File_Not_Found"

text \<open>Ten users, of which the third, the sixth and the eighth cannot be fetched, and a
  completion order that a pool of five workers can produce.\<close>

definition ten_users :: "string list" where
  "ten_users = [''u0'', ''u1'', ''u2'', ''u3'', ''u4'', ''u5'', ''u6'', ''u7'', ''u8'', ''u9'']"

text \<open>The server's record of the user a request names: the login is what follows
  \<open>https://api.github.com/users/\<close> in the URL.\<close>

definition user_page :: "request \<Rightarrow> reply" where
  "user_page req =
     Received (Response 200 (IntText 5) (IntText 0)
       (Some (JObj [(''login'', JStr (drop 29 (url req)))])))"

definition three_fail :: "nat \<Rightarrow> request \<Rightarrow> reply" where
  "three_fail i req =
     (if i = 2 then Transport_Failure
      else if i = 5 then forbidden
      else if i = 7 then Received (Response 200 (IntText 5) (IntText 0) (Some (JArr [])))
      else user_page req)"

definition five_workers :: "nat list" where
  "five_workers = [1, 0, 4, 2, 3, 6, 5, 9, 8, 7]"

definition always_user_page :: "nat \<Rightarrow> request \<Rightarrow> reply" where
  "always_user_page i req = user_page req"


section \<open>Quota wait\<close>




section \<open>Properties of \<open>scrape_github_repositories\<close>\<close>

subsection \<open>One page\<close>



lemma handle_rate_limiting_prefix:
  "handle_rate_limiting env response (w, tr @ ev) = Inr (w', tr') \<Longrightarrow> prefix tr tr'"
  by (auto simp: handle_rate_limiting_def Let_def split: sum.splits if_splits prod.splits)

lemma list_extend_prefix: "list_extend xs v = Inr ys \<Longrightarrow> prefix xs ys"
  by (auto simp: list_extend_def split: sum.splits)

lemma scrape_page_Break:
  assumes "requests_get env (search_request tok q p) w = (rep, w1)" and "request_exception rep"
  shows "scrape_page env tok q p (w, repos, tr) = Break (w1, repos, tr @ [Get (search_request tok q p) rep])"
  using assms
  by (auto simp: scrape_page_def request_exception_def Let_def split: reply.splits)



lemma scrape_page_prefix:
  assumes "outcome_state (scrape_page env tok q p (w, repos, tr)) = (w', repos', tr')"
  shows "prefix repos repos' \<and> prefix tr tr'"
  using assms
  by (auto simp: scrape_page_def Let_def
      split: reply.splits option.splits json.splits sum.splits prod.splits if_splits
      dest: list_extend_prefix handle_rate_limiting_prefix)

lemma wait_served_iff:
  "wait_served t tr \<longleftrightarrow>
     (\<exists>now tr'. tr = Read_Clock now # Sleep (max (real_of_int t - now + 1) 0) # tr')"
proof (cases tr)
  case Nil
  then show ?thesis by (simp add: wait_served_def)
next
  case outer: (Cons e tr1)
  show ?thesis
  proof (cases e)
    case (Get req rep)
    with outer show ?thesis by (simp add: wait_served_def)
  next
    case (Read_Clock now)
    show ?thesis
    proof (cases tr1)
      case Nil
      with outer Read_Clock show ?thesis by (simp add: wait_served_def)
    next
      case (Cons e2 tr2)
      with outer Read_Clock show ?thesis by (cases e2) (auto simp: wait_served_def)
    qed
  next
    case (Sleep d)
    with outer show ?thesis by (simp add: wait_served_def)
  next
    case (Write_Csv name rows)
    with outer show ?thesis by (simp add: wait_served_def)
  qed
qed

lemma quota_respected_append:
  "quota_respected tr \<Longrightarrow> quota_respected tr2 \<Longrightarrow> quota_respected (tr @ tr2)"
proof (induction tr rule: quota_respected.induct)
  case 1
  then show ?case by simp
next
  case (2 req rep tr)
  show ?case
  proof (cases "wait_due rep")
    case None
    with 2 show ?thesis by simp
  next
    case (Some reset_time)
    with "2.prems"(1) have served: "wait_served reset_time tr" and rest: "quota_respected (drop 2 tr)"
      by simp_all
    from served obtain now tr' where
      tr: "tr = Read_Clock now # Sleep (max (real_of_int reset_time - now + 1) 0) # tr'"
      unfolding wait_served_iff by blast
    from "2.IH"(2) [OF Some rest "2.prems"(2)] tr
    have "quota_respected (tr' @ tr2)" by simp
    moreover have "wait_served reset_time (tr @ tr2)"
      unfolding wait_served_iff using tr by simp
    ultimately show ?thesis using Some tr by simp
  qed
next
  case (3 now tr)
  then show ?case by simp
next
  case (4 d tr)
  then show ?case by simp
next
  case (5 name rows tr)
  then show ?case by simp
qed

lemma scrape_page_quota:
  assumes "scrape_page env tok q p (w, repos, tr) = out"
    and "out = Continue (w', repos', tr') \<or> out = Break (w', repos', tr')"
  shows "\<exists>seg. tr' = tr @ seg \<and> quota_respected seg"
  using assms
  by (auto simp: scrape_page_def Let_def wait_due_def wait_served_def handle_rate_limiting_def
      split: reply.splits option.splits json.splits sum.splits prod.splits if_splits)

subsection \<open>The loops\<close>

lemma scrape_pages_append:
  "scrape_pages env tok q (ps1 @ ps2) s =
     (case scrape_pages env tok q ps1 s of
        Continue s' \<Rightarrow> scrape_pages env tok q ps2 s'
      | Break s' \<Rightarrow> Break s'
      | Raise e s' \<Rightarrow> Raise e s')"
  by (induction ps1 arbitrary: s) (auto split: outcome.splits)

lemma scrape_queries_append:
  "scrape_queries env tok pages (qs1 @ qs2) s =
     (case scrape_queries env tok pages qs1 s of
        Inl x \<Rightarrow> Inl x
      | Inr s' \<Rightarrow> scrape_queries env tok pages qs2 s')"
  by (induction qs1 arbitrary: s) (auto split: outcome.splits)





lemma scrape_pages_prefix:
  assumes "outcome_state (scrape_pages env tok q ps (w, repos, tr)) = (w', repos', tr')"
  shows "prefix repos repos' \<and> prefix tr tr'"
  using assms
proof (induction ps arbitrary: w repos tr)
  case Nil
  then show ?case by simp
next
  case (Cons p ps)
  obtain w1 r1 tr1 where s1: "outcome_state (scrape_page env tok q p (w, repos, tr)) = (w1, r1, tr1)"
    by (metis prod_cases3)
  from scrape_page_prefix [OF s1] have p1: "prefix repos r1" "prefix tr tr1" by auto
  show ?case
  proof (cases "scrape_page env tok q p (w, repos, tr)")
    case (Continue s)
    with s1 Cons.prems have "outcome_state (scrape_pages env tok q ps (w1, r1, tr1)) = (w', repos', tr')"
      by simp
    from Cons.IH [OF this] p1 show ?thesis by (meson prefix_order.trans)
  next
    case (Break s)
    with s1 Cons.prems p1 show ?thesis by simp
  next
    case (Raise e s)
    with s1 Cons.prems p1 show ?thesis by simp
  qed
qed

lemma scrape_queries_prefix:
  assumes "final_state (scrape_queries env tok pages qs (w, repos, tr)) = (w', repos', tr')"
  shows "prefix repos repos' \<and> prefix tr tr'"
  using assms
proof (induction qs arbitrary: w repos tr)
  case Nil
  then show ?case by simp
next
  case (Cons q qs)
  obtain w1 r1 tr1 where s1:
    "outcome_state (scrape_pages env tok q [1..pages] (w, repos, tr)) = (w1, r1, tr1)"
    by (metis prod_cases3)
  from scrape_pages_prefix [OF s1] have p1: "prefix repos r1" "prefix tr tr1" by auto
  show ?case
  proof (cases "scrape_pages env tok q [1..pages] (w, repos, tr)")
    case (Continue s)
    with s1 Cons.prems have "final_state (scrape_queries env tok pages qs (w1, r1, tr1)) = (w', repos', tr')"
      by simp
    from Cons.IH [OF this] p1 show ?thesis by (meson prefix_order.trans)
  next
    case (Break s)
    with s1 Cons.prems have "final_state (scrape_queries env tok pages qs (w1, r1, tr1)) = (w', repos', tr')"
      by simp
    from Cons.IH [OF this] p1 show ?thesis by (meson prefix_order.trans)
  next
    case (Raise e s)
    with s1 Cons.prems p1 show ?thesis by simp
  qed
qed

lemma scrape_pages_quota:
  assumes "scrape_pages env tok q ps (w, repos, tr) = out"
    and "out = Continue (w', repos', tr') \<or> out = Break (w', repos', tr')"
  shows "\<exists>seg. tr' = tr @ seg \<and> quota_respected seg"
  using assms
proof (induction ps arbitrary: w repos tr)
  case Nil
  then show ?case by auto
next
  case (Cons p ps)
  show ?case
  proof (cases "scrape_page env tok q p (w, repos, tr)")
    case (Continue s1)
    obtain w1 r1 tr1 where s1: "s1 = (w1, r1, tr1)" by (cases s1) auto
    from Continue s1 have "scrape_page env tok q p (w, repos, tr) = Continue (w1, r1, tr1)" by simp
    from scrape_page_quota [OF this] obtain seg1 where
      seg1: "tr1 = tr @ seg1" "quota_respected seg1" by blast
    from Cons.prems Continue s1 have "scrape_pages env tok q ps (w1, r1, tr1) = out" by simp
    from Cons.IH [OF this Cons.prems(2)] obtain seg2 where
      seg2: "tr' = tr1 @ seg2" "quota_respected seg2" by blast
    have "tr' = tr @ (seg1 @ seg2)" using seg1(1) seg2(1) by simp
    moreover have "quota_respected (seg1 @ seg2)"
      using seg1(2) seg2(2) by (rule quota_respected_append)
    ultimately show ?thesis by blast
  next
    case (Break s1)
    with Cons.prems have "scrape_page env tok q p (w, repos, tr) = Break (w', repos', tr')" by auto
    from scrape_page_quota [OF this] show ?thesis by blast
  next
    case (Raise e s1)
    with Cons.prems show ?thesis by auto
  qed
qed

lemma scrape_queries_quota:
  assumes "scrape_queries env tok pages qs (w, r, tr) = Inr (w', r', tr')"
  shows "\<exists>seg. tr' = tr @ seg \<and> quota_respected seg"
  using assms
proof (induction qs arbitrary: w r tr)
  case Nil
  then show ?case by simp
next
  case (Cons q qs)
  from Cons.prems obtain w1 r1 tr1 where
    step: "scrape_pages env tok q [1..pages] (w, r, tr) = Continue (w1, r1, tr1)
           \<or> scrape_pages env tok q [1..pages] (w, r, tr) = Break (w1, r1, tr1)"
    and rest: "scrape_queries env tok pages qs (w1, r1, tr1) = Inr (w', r', tr')"
    by (auto split: outcome.splits)
  from scrape_pages_quota [OF refl step] obtain seg1 where
    seg1: "tr1 = tr @ seg1" "quota_respected seg1" by blast
  from Cons.IH [OF rest] obtain seg2 where
    seg2: "tr' = tr1 @ seg2" "quota_respected seg2" by blast
  have "tr' = tr @ (seg1 @ seg2)" using seg1(1) seg2(1) by simp
  moreover have "quota_respected (seg1 @ seg2)"
    using seg1(2) seg2(2) by (rule quota_respected_append)
  ultimately show ?case by blast
qed

subsection \<open>Evaluating the examples\<close>

lemmas run_simps =
  scrape_github_repositories_def scrape_page_def handle_rate_limiting_def header_int_def
  scripted_def raise_for_status_def py_get_def list_extend_def Let_def search_request_def
  page_of_def forbidden_def exhausted_page_def repo_def
  first_forbidden_def second_forbidden_def first_exhausted_def first_empty_def

lemma upto_1: "[1..1] = [1::int]"
  by (simp add: upto.simps)

lemma upto_2: "[1..2] = [1, 2::int]"
  by (simp add: upto.simps)


section \<open>Order of the requests\<close>



section \<open>A failed page\<close>

text \<open>
  C2: when the fetch of page \<open>p\<close> of a query fails, after the queries before it and its
  pages before \<open>p\<close> went through, the run goes on with the queries after it from the state
  reached: the items accumulated so far are kept and are a prefix of everything the run
  accumulates, the failed request is the last one of that query, and the rest of the run
  is the run of the remaining queries.
\<close>

theorem failed_page_abandons_only_its_query:
  assumes before: "scrape_queries env access_token pages qs1 s0 = Inr s1"
    and earlier: "scrape_pages env access_token query [1..p - 1] s1 = Continue (w2, repos2, tr2)"
    and p: "1 \<le> p" "p \<le> pages"
    and reply: "requests_get env (search_request access_token query p) w2 = (rep, w3)"
    and fails: "request_exception rep"
  shows "scrape_queries env access_token pages (qs1 @ query # qs2) s0 =
           scrape_queries env access_token pages qs2
             (w3, repos2, tr2 @ [Get (search_request access_token query p) rep])
         \<and> prefix repos2
             (fst (snd (final_state (scrape_queries env access_token pages (qs1 @ query # qs2) s0))))"
proof -
  let ?s3 = "(w3, repos2, tr2 @ [Get (search_request access_token query p) rep])"
  have split: "[1..pages] = [1..p - 1] @ p # [p + 1..pages]"
    using p by (rule upto_split3)
  have "scrape_page env access_token query p (w2, repos2, tr2) = Break ?s3"
    using reply fails by (rule scrape_page_Break)
  then have "scrape_pages env access_token query [1..pages] s1 = Break ?s3"
    using earlier by (simp add: split scrape_pages_append)
  then have eq: "scrape_queries env access_token pages (qs1 @ query # qs2) s0 =
           scrape_queries env access_token pages qs2 ?s3"
    using before by (simp add: scrape_queries_append)
  obtain w' repos' tr' where fin:
    "final_state (scrape_queries env access_token pages qs2 ?s3) = (w', repos', tr')"
    by (metis prod_cases3)
  from scrape_queries_prefix [OF fin] have "prefix repos2 repos'" by simp
  with eq fin show ?thesis by simp
qed

theorem failed_page_abandons_only_its_query_witness:
  "scrape_queries (scripted 100 second_forbidden) ''t'' 3 ([] @ ''a'' # [''b'']) (0, [], []) =
     scrape_queries (scripted 100 second_forbidden) ''t'' 3 [''b'']
       (2, [repo],
        [Get (search_request ''t'' ''a'' 1) (page_of [repo])]
        @ [Get (search_request ''t'' ''a'' 2) forbidden])
   \<and> prefix [repo]
       (fst (snd (final_state
          (scrape_queries (scripted 100 second_forbidden) ''t'' 3 ([] @ ''a'' # [''b''])
             (0, [], [])))))"
proof -
  have before: "scrape_queries (scripted 100 second_forbidden) ''t'' 3 [] (0, [], []) = Inr (0, [], [])"
    by simp
  have earlier: "scrape_pages (scripted 100 second_forbidden) ''t'' ''a'' [1..2 - 1] (0, [], []) =
      Continue (1, [repo], [Get (search_request ''t'' ''a'' 1) (page_of [repo])])"
    by (simp add: run_simps upto_1)
  have reply: "requests_get (scripted 100 second_forbidden) (search_request ''t'' ''a'' 2) 1 =
      (forbidden, 2)"
    by (simp add: scripted_def second_forbidden_def)
  have fails: "request_exception forbidden"
    by (simp add: request_exception_def forbidden_def raise_for_status_def)
  have p: "(1::int) \<le> 2" "(2::int) \<le> 3"
    by simp_all
  from failed_page_abandons_only_its_query
    [OF before earlier p reply fails, where ?qs2.0 = "[''b'']"]
  show ?thesis .
qed

section \<open>An empty page\<close>

text \<open>
  C7: a page whose successful response carries an empty list of items leaves the
  accumulator as it was and the loop goes on with the next page of the same query; the
  one thing done for such a page is the handling of the rate limit, as for any other
  successful page.
\<close>

theorem empty_page_continues:
  assumes "requests_get env (search_request access_token query page) w = (Received response, w1)"
    and "\<not> raise_for_status response"
    and "body response = Some (JObj d)"
    and "py_get d ''items'' (JArr []) = JArr []"
    and "handle_rate_limiting env response
           (w1, tr @ [Get (search_request access_token query page) (Received response)]) = Inr (w2, tr2)"
  shows "scrape_page env access_token query page (w, repositories_list, tr)
           = Continue (w2, repositories_list, tr2)
         \<and> scrape_pages env access_token query (page # rest) (w, repositories_list, tr)
           = scrape_pages env access_token query rest (w2, repositories_list, tr2)"
  using assms by (simp add: scrape_page_def Let_def)

theorem empty_page_continues_witness:
  "scrape_page (scripted 100 first_empty) ''t'' ''a'' 1 (0, [repo], []) =
     Continue (1, [repo], [Get (search_request ''t'' ''a'' 1) (page_of [])])
   \<and> scrape_pages (scripted 100 first_empty) ''t'' ''a'' (1 # [2]) (0, [repo], []) =
     scrape_pages (scripted 100 first_empty) ''t'' ''a'' [2]
       (1, [repo], [Get (search_request ''t'' ''a'' 1) (page_of [])])"
proof -
  let ?response = "Response 200 (IntText 5) (IntText 0) (Some (JObj [(''items'', JArr [])]))"
  have a: "requests_get (scripted 100 first_empty) (search_request ''t'' ''a'' 1) 0 =
      (Received ?response, 1)"
    by (simp add: scripted_def first_empty_def page_of_def)
  have b: "\<not> raise_for_status ?response"
    by (simp add: raise_for_status_def)
  have c: "body ?response = Some (JObj [(''items'', JArr [])])"
    by simp
  have d: "py_get [(''items'', JArr [])] ''items'' (JArr []) = JArr []"
    by (simp add: py_get_def)
  have e: "handle_rate_limiting (scripted 100 first_empty) ?response
      (1, [] @ [Get (search_request ''t'' ''a'' 1) (Received ?response)]) =
      Inr (1, [Get (search_request ''t'' ''a'' 1) (Received ?response)])"
    by (simp add: handle_rate_limiting_def header_int_def)
  from empty_page_continues [OF a b c d e, of "[repo]" "[2]"]
  show ?thesis by (simp add: page_of_def)
qed

section \<open>Inspection of the quota headers\<close>

text \<open>
  C4, as stated, fails: a response handled as an HTTP error is not inspected. Here the
  first reply has status 403 and a remaining quota of 0, and the next request follows it
  with no wait in between.
\<close>

theorem error_response_not_inspected:
  "scrape_github_repositories (scripted 100 first_forbidden) [''a'', ''b''] ''t'' 1 0 =
     Inr (2, [repo],
       [Get (search_request ''t'' ''a'' 1) forbidden,
        Get (search_request ''t'' ''b'' 1) (page_of [repo])])"
  by (simp add: run_simps upto_1)

text \<open>
  C4, amended: in every run that returns, each response that is not handled as a failure
  has its remaining-quota header inspected, and when that header reads 0 or is absent the
  reset header is read and \<open>max (reset_time - now + 1) 0\<close> seconds are slept before the
  next request is issued; the run reads the clock and sleeps at no other point.
\<close>

theorem quota_inspected_after_success:
  assumes "scrape_github_repositories env search_queries access_token pages w = Inr (w', repositories, tr)"
  shows "quota_respected tr"
  using scrape_queries_quota [of env access_token pages search_queries w "[]" "[]" w' repositories tr] assms
  by (simp add: scrape_github_repositories_def)

theorem quota_inspected_after_success_witness:
  "scrape_github_repositories (scripted 100 first_exhausted) [''a''] ''t'' 2 0 =
     Inr (2, [repo, repo],
       [Get (search_request ''t'' ''a'' 1) exhausted_page, Read_Clock 100, Sleep 31,
        Get (search_request ''t'' ''a'' 2) (page_of [repo])])
   \<and> quota_respected
       [Get (search_request ''t'' ''a'' 1) exhausted_page, Read_Clock 100, Sleep 31,
        Get (search_request ''t'' ''a'' 2) (page_of [repo])]"
proof -
  have run: "scrape_github_repositories (scripted 100 first_exhausted) [''a''] ''t'' 2 0 =
     Inr (2, [repo, repo],
       [Get (search_request ''t'' ''a'' 1) exhausted_page, Read_Clock 100, Sleep 31,
        Get (search_request ''t'' ''a'' 2) (page_of [repo])])"
    by (simp add: run_simps upto_2)
  from quota_inspected_after_success [OF run] run show ?thesis by simp
qed

section \<open>Missing credentials\<close>

text \<open>
  C8: when at least one of the variables \<open>token_1\<close> and \<open>token_2\<close> is absent,
  \<open>load_access_tokens\<close> raises \<open>ValueError\<close> and \<open>main\<close> returns with an empty trace:
  no request has been made and no file written.
\<close>

theorem missing_token_aborts_before_any_fetch:
  assumes "getenv ''token_1'' = None \<or> getenv ''token_2'' = None"
  shows "load_access_tokens getenv = Inl ValueError
         \<and> main getenv env w read_csv answer_users sched_users answer_orgs sched_orgs = Some []"
proof -
  from assms have "load_access_tokens getenv = Inl ValueError"
    by (auto simp: load_access_tokens_def split: option.splits)
  then show ?thesis by (simp add: main_def)
qed

theorem missing_token_aborts_before_any_fetch_witness:
  "load_access_tokens [''token_1'' \<mapsto> ''abc''] = Inl ValueError
   \<and> main [''token_1'' \<mapsto> ''abc''] (scripted 100 first_exhausted) 0 no_file
        no_network [] no_network [] = Some []"
proof -
  have "[''token_1'' \<mapsto> ''abc''] ''token_1'' = None \<or> [''token_1'' \<mapsto> ''abc''] ''token_2'' = None"
    by simp
  then show ?thesis by (rule missing_token_aborts_before_any_fetch)
qed

text \<open>With both tokens present the same run does reach the network.\<close>

lemma main_with_tokens_fetches:
  "main [''token_1'' \<mapsto> ''abc'', ''token_2'' \<mapsto> ''def''] (scripted 100 no_network) 0 no_file
        no_network [] no_network [] =
     Some (map (\<lambda>query. Get (search_request ''abc'' query 1) Transport_Failure) main_search_queries)"
  by (simp add: main_def load_access_tokens_def main_search_queries_def run_simps upto.simps
      no_network_def save_repositories_to_csv_def analyze_users_and_organizations_def no_file_def
      fetch_all_user_details_def fetch_all_organizations_data_def gather_def run_pool_def
      user_tasks_def organization_tasks_def save_users_data_to_csv_def
      save_organizations_data_to_csv_def)

section \<open>Defaults for missing fields\<close>

lemma repository_records_nth:
  assumes "repository_records repositories = Inr rows"
  shows "length rows = length repositories
         \<and> (\<forall>i < length repositories. repository_record (repositories ! i) = Inr (rows ! i))"
  using assms
proof (induction repositories arbitrary: rows)
  case Nil
  then show ?case by simp
next
  case (Cons r repositories)
  from Cons.prems obtain row rows' where
    row: "repository_record r = Inr row"
    and rest: "repository_records repositories = Inr rows'"
    and rows: "rows = row # rows'"
    by (auto split: sum.splits)
  from Cons.IH [OF rest] row rows show ?case
    by (auto simp: nth_Cons split: nat.splits)
qed

lemma repository_record_stars:
  assumes "repository_record (JObj d) = Inr row" and "map_of d ''stargazers_count'' = None"
  shows "map_of row ''Stars Count'' = Some (JInt 0)"
  using assms
  by (auto simp: repository_record_def py_get_def split: json.splits sum.splits)

lemma repository_record_description:
  assumes "repository_record (JObj d) = Inr row" and "map_of d ''description'' = None"
  shows "map_of row ''Description'' = Some (JStr ''N/A'')"
  using assms
  by (auto simp: repository_record_def py_get_def split: json.splits sum.splits)

text \<open>
  C9: when \<open>save_repositories_to_csv\<close> writes its file, it writes one row per raw record,
  and the row of a record without the key \<open>stargazers_count\<close> has 0 under
  \<open>Stars Count\<close>, the row of a record without the key \<open>description\<close> has \<open>N/A\<close> under
  \<open>Description\<close>.
\<close>

theorem missing_fields_defaulted:
  assumes "save_repositories_to_csv repositories output_file = [Write_Csv output_file rows]"
    and "i < length repositories"
    and "repositories ! i = JObj d"
  shows "length rows = length repositories
         \<and> (map_of d ''stargazers_count'' = None \<longrightarrow>
              map_of (rows ! i) ''Stars Count'' = Some (JInt 0))
         \<and> (map_of d ''description'' = None \<longrightarrow>
              map_of (rows ! i) ''Description'' = Some (JStr ''N/A''))"
proof -
  from assms(1) have "repository_records repositories = Inr rows"
    by (auto simp: save_repositories_to_csv_def split: if_splits sum.splits)
  from repository_records_nth [OF this] assms(2,3)
  have len: "length rows = length repositories"
    and row: "repository_record (JObj d) = Inr (rows ! i)"
    by auto
  from len repository_record_stars [OF row] repository_record_description [OF row]
  show ?thesis by blast
qed

theorem missing_fields_defaulted_witness:
  "\<exists>rows. save_repositories_to_csv [repo] ''repositories_data.csv'' =
             [Write_Csv ''repositories_data.csv'' rows]
     \<and> length rows = 1
     \<and> map_of (rows ! 0) ''Stars Count'' = Some (JInt 0)
     \<and> map_of (rows ! 0) ''Description'' = Some (JStr ''N/A'')"
proof -
  have "\<exists>rows. save_repositories_to_csv [repo] ''repositories_data.csv'' =
             [Write_Csv ''repositories_data.csv'' rows]"
    by (simp add: save_repositories_to_csv_def repository_record_def repo_def py_get_def
        py_join_def)
  then obtain rows where saved: "save_repositories_to_csv [repo] ''repositories_data.csv'' =
             [Write_Csv ''repositories_data.csv'' rows]" ..
  have i: "0 < length [repo]" by simp
  have r: "[repo] ! 0 = JObj [(''name'', JStr ''r'')]" by (simp add: repo_def)
  from missing_fields_defaulted [OF saved i r] saved show ?thesis by simp
qed

section \<open>The thread pool\<close>

lemma pool_schedule_permutation:
  assumes "pool_schedule max_workers n sched"
  shows "set sched = {0..<n} \<and> distinct sched"
proof -
  from assms have len: "length sched = n" and sub: "{0..<n} \<subseteq> set sched"
    by (auto simp: pool_schedule_def list_all_iff)
  have "card (set sched) \<le> n" using len card_length [of sched] by simp
  moreover have "n \<le> card (set sched)"
    using card_mono [OF finite_set sub] by simp
  ultimately have card: "card (set sched) = n" by simp
  have "{0..<n} = set sched"
    using sub card by (intro card_seteq) simp_all
  moreover have "distinct sched"
    using card len by (simp add: card_distinct)
  ultimately show ?thesis by simp
qed

lemma pool_step_task:
  "i < length tasks \<Longrightarrow> (tasks ! i) (answer i) = (ev, result) \<Longrightarrow>
   pool_step tasks answer i (f0, tr0) = (f0(i \<mapsto> result), tr0 @ ev)"
  by (simp add: pool_step_def)

lemma fold_pool_step:
  assumes "fold (pool_step tasks answer) sched (f0, tr0) = (f, tr)"
    and "set sched \<subseteq> {0..<length tasks}"
  shows "(\<forall>i. f i = (if i \<in> set sched then Some (snd ((tasks ! i) (answer i))) else f0 i))
         \<and> tr = tr0 @ concat (map (\<lambda>i. fst ((tasks ! i) (answer i))) sched)"
  using assms
proof (induction sched arbitrary: f0 tr0)
  case Nil
  then show ?case by simp
next
  case (Cons j sched)
  obtain ev result where task: "(tasks ! j) (answer j) = (ev, result)"
    by (cases "(tasks ! j) (answer j)") auto
  from Cons.prems(2) have j: "j < length tasks" and rest: "set sched \<subseteq> {0..<length tasks}"
    by auto
  from Cons.prems(1) j task
  have "fold (pool_step tasks answer) sched (f0(j \<mapsto> result), tr0 @ ev) = (f, tr)"
    by (simp add: pool_step_task)
  from Cons.IH [OF this rest] task show ?case by auto
qed

lemma collect_results_filled:
  assumes "\<forall>i \<in> set js. futures i = Some (r i)"
  shows "collect_results futures js = Some (List.map_filter r js)"
  using assms
  by (induction js) (auto simp: List.map_filter_simps split: option.splits)

lemma gather_schedule:
  assumes "pool_schedule max_workers (length tasks) sched"
  shows "gather tasks answer sched =
           (concat (map (\<lambda>i. fst ((tasks ! i) (answer i))) sched),
            Some (List.map_filter (\<lambda>i. snd ((tasks ! i) (answer i))) [0..<length tasks]))"
proof -
  from pool_schedule_permutation [OF assms]
  have perm: "set sched = {0..<length tasks}" by simp
  obtain f tr where run: "fold (pool_step tasks answer) sched (Map.empty, []) = (f, tr)"
    by (cases "fold (pool_step tasks answer) sched (Map.empty, [])") auto
  from fold_pool_step [OF run] perm
  have f: "\<forall>i \<in> set [0..<length tasks]. f i = Some (snd ((tasks ! i) (answer i)))"
    and tr: "tr = concat (map (\<lambda>i. fst ((tasks ! i) (answer i))) sched)"
    by auto
  from collect_results_filled [OF f] tr run show ?thesis
    by (simp add: gather_def run_pool_def)
qed

lemma map_filter_cong:
  assumes "\<And>x. x \<in> set xs \<Longrightarrow> f x = g x"
  shows "List.map_filter f xs = List.map_filter g xs"
proof -
  have "filter (\<lambda>x. f x \<noteq> None) xs = filter (\<lambda>x. g x \<noteq> None) xs"
    by (rule filter_cong) (simp_all add: assms)
  moreover have "map (the \<circ> f) (filter (\<lambda>x. g x \<noteq> None) xs) = map (the \<circ> g) (filter (\<lambda>x. g x \<noteq> None) xs)"
    by (rule map_cong) (simp_all add: assms)
  ultimately show ?thesis by (simp add: List.map_filter_def)
qed


lemma length_user_tasks: "length (user_tasks users t1 t2) = length users"
  by (simp add: user_tasks_def)

lemma nth_user_tasks:
  "i < length users \<Longrightarrow>
   (user_tasks users t1 t2 ! i) get = fetch_user_details get (users ! i) (if i < 4000 then t1 else t2)"
  by (simp add: user_tasks_def nth_enumerate_eq)

lemma length_organization_tasks: "length (organization_tasks organizations t2) = length organizations"
  by (simp add: organization_tasks_def)

lemma nth_organization_tasks:
  "i < length organizations \<Longrightarrow>
   (organization_tasks organizations t2 ! i) get = fetch_organization_data get (organizations ! i) t2"
  by (simp add: organization_tasks_def)

lemma fetch_all_user_details_results:
  assumes "pool_schedule max_workers (length users) sched"
  shows "snd (fetch_all_user_details answer sched users t1 t2) =
           Some (List.map_filter
                   (\<lambda>i. snd (fetch_user_details (answer i) (users ! i) (if i < 4000 then t1 else t2)))
                   [0..<length users])"
proof -
  from assms have "pool_schedule max_workers (length (user_tasks users t1 t2)) sched"
    by (simp add: length_user_tasks)
  from gather_schedule [OF this]
  have "snd (fetch_all_user_details answer sched users t1 t2) =
          Some (List.map_filter (\<lambda>i. snd ((user_tasks users t1 t2 ! i) (answer i))) [0..<length users])"
    by (simp add: fetch_all_user_details_def length_user_tasks)
  also have "List.map_filter (\<lambda>i. snd ((user_tasks users t1 t2 ! i) (answer i))) [0..<length users] =
      List.map_filter
        (\<lambda>i. snd (fetch_user_details (answer i) (users ! i) (if i < 4000 then t1 else t2)))
        [0..<length users]"
    by (rule map_filter_cong) (simp add: nth_user_tasks)
  finally show ?thesis .
qed

lemma fetch_all_organizations_data_results:
  assumes "pool_schedule max_workers (length organizations) sched"
  shows "snd (fetch_all_organizations_data answer sched organizations t2) =
           Some (List.map_filter
                   (\<lambda>i. snd (fetch_organization_data (answer i) (organizations ! i) t2))
                   [0..<length organizations])"
proof -
  from assms have "pool_schedule max_workers (length (organization_tasks organizations t2)) sched"
    by (simp add: length_organization_tasks)
  from gather_schedule [OF this]
  have "snd (fetch_all_organizations_data answer sched organizations t2) =
          Some (List.map_filter (\<lambda>i. snd ((organization_tasks organizations t2 ! i) (answer i)))
                  [0..<length organizations])"
    by (simp add: fetch_all_organizations_data_def length_organization_tasks)
  also have "List.map_filter (\<lambda>i. snd ((organization_tasks organizations t2 ! i) (answer i)))
        [0..<length organizations] =
      List.map_filter (\<lambda>i. snd (fetch_organization_data (answer i) (organizations ! i) t2))
        [0..<length organizations]"
    by (rule map_filter_cong) (simp add: nth_organization_tasks)
  finally show ?thesis .
qed











section \<open>Duplicates among the identifiers\<close>




section \<open>Failures among the detail fetches\<close>



section \<open>Order of the detail records\<close>

text \<open>
  C10: in both stages of \<open>main\<close> the list of detail records is the list of the records of
  the identifiers whose fetch succeeded, in the order of the input list, whatever the
  order in which the tasks complete: the futures are read in the order of submission.
\<close>

theorem details_in_submission_order:
  assumes "pool_schedule max_workers (length users) sched_users"
    and "pool_schedule max_workers (length organizations) sched_orgs"
  shows "snd (fetch_all_user_details answer_users sched_users users t1 t2) =
           Some (List.map_filter
                   (\<lambda>i. snd (fetch_user_details (answer_users i) (users ! i)
                                (if i < 4000 then t1 else t2)))
                   [0..<length users])
         \<and> snd (fetch_all_organizations_data answer_orgs sched_orgs organizations t2) =
           Some (List.map_filter
                   (\<lambda>i. snd (fetch_organization_data (answer_orgs i) (organizations ! i) t2))
                   [0..<length organizations])"
  using fetch_all_user_details_results [OF assms(1)]
    fetch_all_organizations_data_results [OF assms(2)]
  by simp

theorem details_in_submission_order_witness:
  "pool_schedule 5 (length ten_users) five_workers
   \<and> pool_schedule 5 (length [''o1'', ''o2'']) [1, 0]
   \<and> map (\<lambda>d. py_get d ''Username'' JNull)
       (the (snd (fetch_all_user_details three_fail five_workers ten_users ''t1'' ''t2''))) =
     [JStr ''u0'', JStr ''u1'', JStr ''u3'', JStr ''u4'', JStr ''u6'', JStr ''u8'', JStr ''u9'']
   \<and> map (\<lambda>d. py_get d ''Organization Username'' JNull)
       (the (snd (fetch_all_organizations_data always_user_page [1, 0] [''o1'', ''o2''] ''t2''))) =
     [JStr ''o1'', JStr ''o2'']"
proof -
  have sched_users: "pool_schedule 5 (length ten_users) five_workers"
    by code_simp
  have sched_orgs: "pool_schedule 5 (length [''o1'', ''o2'']) [1, 0]"
    by code_simp
  have users: "map (\<lambda>d. py_get d ''Username'' JNull)
       (List.map_filter
          (\<lambda>i. snd (fetch_user_details (three_fail i) (ten_users ! i)
                       (if i < 4000 then ''t1'' else ''t2'')))
          [0..<length ten_users]) =
     [JStr ''u0'', JStr ''u1'', JStr ''u3'', JStr ''u4'', JStr ''u6'', JStr ''u8'', JStr ''u9'']"
    by code_simp
  have orgs: "map (\<lambda>d. py_get d ''Organization Username'' JNull)
       (List.map_filter
          (\<lambda>i. snd (fetch_organization_data (always_user_page i) ([''o1'', ''o2''] ! i) ''t2''))
          [0..<length [''o1'', ''o2'']]) =
     [JStr ''o1'', JStr ''o2'']"
    by code_simp
  from details_in_submission_order [OF sched_users sched_orgs,
      where answer_users = three_fail and ?t1.0 = "''t1''" and ?t2.0 = "''t2''"
        and answer_orgs = always_user_page] users orgs sched_users sched_orgs
  show ?thesis by (simp only: option.sel simp_thms)
qed

end
